theory Spec2Isabelle
  imports Main "HOL-Library.Sublist"
begin

section \<open>A future over a one-shot channel (main.go)\<close>

text \<open>
  The program wraps a background computation in a \<open>FutureTask\<close>. The caller retrieves
  the outcome with \<open>get\<close> or \<open>getWithTimeout\<close>, may \<open>cancel\<close> before the computation
  starts, and may register one completion callback.

  The embedding is a state machine over a record holding the future's fields, the
  state of the background goroutine together with its channel, and a log of callback
  invocations. A call that blocks forever has the value \<open>None\<close>.
\<close>

subsection \<open>Errors and results\<close>

text \<open>
  A Go \<open>error\<close> is nil or a value with an \<open>Error()\<close> method. The file declares
  \<open>TimeoutError\<close> and \<open>InterruptError\<close>, each with one field \<open>errorString\<close>; the
  task may return an error of any other type, which \<open>TaskError\<close> stands for, with the
  text its \<open>Error()\<close> returns. The nil error is \<open>None\<close>.
\<close>

datatype err = TimeoutError string | InterruptError string | TaskError string

fun Error :: "err \<Rightarrow> string" where
  "Error (TimeoutError errorString) = errorString"
| "Error (InterruptError errorString) = errorString"
| "Error (TaskError errorString) = errorString"

text \<open>
  \<open>Result\<close> holds an \<open>interface{}\<close> payload (nil is \<open>None\<close>) and an error. The
  payload type is a parameter.
\<close>

record 'v Result =
  "value" :: "'v option"
  error :: "err option"

text \<open>The zero value \<open>Result{}\<close>, also what a receive from a closed channel yields.\<close>

definition zeroResult :: "'v Result" where
  "zeroResult = \<lparr>value = None, error = None\<rparr>"

text \<open>
  \<open>String\<close>: \<open>fmt.Sprintf("%v with (%s error)", result.value, err)\<close>. The verb
  \<open>%v\<close> prints a nil interface as \<open><nil>\<close>; how it prints a payload depends on the
  payload's type and is the parameter \<open>fmtv\<close> (for a Go string it is the string itself).
\<close>

definition String :: "('v \<Rightarrow> string) \<Rightarrow> 'v Result \<Rightarrow> string" where
  "String fmtv r =
     (let err = (case error r of None \<Rightarrow> ''no'' | Some e \<Rightarrow> Error e)
      in (case value r of None \<Rightarrow> ''<nil>'' | Some v \<Rightarrow> fmtv v) @ '' with ('' @ err @ '' error)'')"

subsection \<open>The future, the goroutine and the channel\<close>

text \<open>
  A callback is a \<open>func()\<close> closure; the model keeps its identity and logs each
  invocation. \<open>None\<close> is the nil function.
\<close>

type_synonym callback = nat

text \<open>
  The fields of \<open>FutureTask\<close>. Its \<open>error\<close> field is named \<open>ft_error\<close> here, apart
  from the \<open>error\<close> field of \<open>Result\<close>. The \<open>channel\<close> field refers to the channel
  shared with the goroutine, whose state is kept beside the future (below).
\<close>

record 'v FutureTask =
  success :: bool
  ft_error :: "err option"
  running :: bool
  "done" :: bool
  result :: "'v Result"
  callbackMethod :: "callback option"

text \<open>
  The goroutine started by \<open>ReturnAFuture\<close> sets \<open>running = true\<close>, calls the task,
  sends the task's Result on the unbuffered channel (blocking until a receiver takes
  it), and on exit closes the channel and sets \<open>running = false\<close>.
\<close>

datatype 'v goroutine =
    NotStarted
  | Running
  | Sending "'v Result"
  | Handed
  | Exited

text \<open>
  The whole system: the future object, what the call \<open>task()\<close> returns (\<open>None\<close> when
  it never returns), where the goroutine stands, and the callbacks invoked so far,
  oldest first.
\<close>

record 'v system =
  futureObject :: "'v FutureTask"
  task :: "'v Result option"
  producer :: "'v goroutine"
  invoked :: "callback list"

definition ReturnAFuture :: "'v Result option \<Rightarrow> 'v system" where
  "ReturnAFuture tsk =
     \<lparr>futureObject =
        \<lparr>success = False, ft_error = None, running = False, done = False,
         result = zeroResult, callbackMethod = None\<rparr>,
      task = tsk, producer = NotStarted, invoked = []\<rparr>"

text \<open>One step of the goroutine, when it can take one on its own.\<close>

definition goroutine_step :: "'v system \<Rightarrow> 'v system" where
  "goroutine_step w =
     (case producer w of
        NotStarted \<Rightarrow> w\<lparr>futureObject := (futureObject w)\<lparr>running := True\<rparr>, producer := Running\<rparr>
      | Running \<Rightarrow> (case task w of None \<Rightarrow> w | Some r \<Rightarrow> w\<lparr>producer := Sending r\<rparr>)
      | Sending r \<Rightarrow> w
      | Handed \<Rightarrow> w\<lparr>futureObject := (futureObject w)\<lparr>running := False\<rparr>, producer := Exited\<rparr>
      | Exited \<Rightarrow> w)"

text \<open>
  The caller's blocking receive \<open><-futureTask.channel\<close>, waiting as long as it takes:
  the goroutine runs up to its send and hands the Result over; a closed channel
  yields the zero Result; when the task never returns nothing is ever received.
\<close>

definition receive :: "'v system \<Rightarrow> ('v Result \<times> 'v system) option" where
  "receive w =
     (case producer w of
        NotStarted \<Rightarrow>
          (case task w of None \<Rightarrow> None
           | Some r \<Rightarrow> Some (r, w\<lparr>futureObject := (futureObject w)\<lparr>running := True\<rparr>,
                                  producer := Handed\<rparr>))
      | Running \<Rightarrow>
          (case task w of None \<Rightarrow> None | Some r \<Rightarrow> Some (r, w\<lparr>producer := Handed\<rparr>))
      | Sending r \<Rightarrow> Some (r, w\<lparr>producer := Handed\<rparr>)
      | Handed \<Rightarrow> Some (zeroResult, goroutine_step w)
      | Exited \<Rightarrow> Some (zeroResult, w))"

subsection \<open>Retrieval\<close>

text \<open>
  A context is \<open>context.Background()\<close>, whose \<open>Done()\<close> never delivers, or the result
  of \<open>context.WithTimeout\<close>. Which case of the \<open>select\<close> is taken under a timeout
  depends on timing: the flag of \<open>WithTimeout\<close> says whether the deadline elapses
  before the channel delivers. When the channel never delivers, the deadline is taken
  whatever the flag.
\<close>

datatype Context = Background | WithTimeout int bool

definition ctxDoneFirst :: "Context \<Rightarrow> 'v system \<Rightarrow> bool" where
  "ctxDoneFirst ctx w =
     (case ctx of
        Background \<Rightarrow> False
      | WithTimeout timeout elapses \<Rightarrow> elapses \<or> receive w = None)"

definition timeoutError :: err where
  "timeoutError = TimeoutError ''Request Timeout!''"

definition getWithContext :: "Context \<Rightarrow> 'v system \<Rightarrow> ('v system \<times> 'v Result) option" where
  "getWithContext ctx w =
     (if ctxDoneFirst ctx w then
        let f = (futureObject w)\<lparr>done := True, success := False, ft_error := Some timeoutError\<rparr>;
            f = f\<lparr>result := \<lparr>value = None, error = ft_error f\<rparr>\<rparr>
        in Some (w\<lparr>futureObject := f\<rparr>, result f)
      else
        (case receive w of
           None \<Rightarrow> None
         | Some (r, w1) \<Rightarrow>
             let f = (futureObject w1)\<lparr>result := r\<rparr>;
                 f = (if error (result f) \<noteq> None
                      then f\<lparr>done := True, success := False, ft_error := error (result f)\<rparr>
                      else f\<lparr>success := True, done := True, ft_error := None\<rparr>)
             in Some (w1\<lparr>futureObject := f\<rparr>, result f)))"

text \<open>The deferred call of the callback: it runs when the enclosing function returns.\<close>

definition deferred :: "callback option \<Rightarrow> 'v system \<Rightarrow> 'v system" where
  "deferred cb w = (case cb of None \<Rightarrow> w | Some c \<Rightarrow> w\<lparr>invoked := invoked w @ [c]\<rparr>)"

definition get :: "'v system \<Rightarrow> ('v system \<times> 'v Result) option" where
  "get w =
     (if done (futureObject w) then Some (w, result (futureObject w))
      else
        (case getWithContext Background w of
           None \<Rightarrow> None
         | Some (w1, r) \<Rightarrow> Some (deferred (callbackMethod (futureObject w)) w1, r)))"

definition getWithTimeout :: "int \<Rightarrow> bool \<Rightarrow> 'v system \<Rightarrow> ('v system \<times> 'v Result) option" where
  "getWithTimeout timeout elapses w =
     (if done (futureObject w) then Some (w, result (futureObject w))
      else
        (case getWithContext (WithTimeout timeout elapses) w of
           None \<Rightarrow> None
         | Some (w1, r) \<Rightarrow> Some (deferred (callbackMethod (futureObject w)) w1, r)))"

subsection \<open>Inspection, cancellation, callback registration\<close>

definition isCancelled :: "'v FutureTask \<Rightarrow> bool" where
  "isCancelled futureTask =
     (if done futureTask then
        (case ft_error futureTask of
           None \<Rightarrow> False
         | Some e \<Rightarrow> if Error e = ''Cancelled Manually'' then True else False)
      else False)"

definition complete :: "'v FutureTask \<Rightarrow> bool" where
  "complete futureTask = (if done futureTask then True else False)"

definition isRunning :: "'v FutureTask \<Rightarrow> bool" where
  "isRunning futureTask = (if running futureTask then True else False)"

definition interruptionError :: err where
  "interruptionError = InterruptError ''Cancelled Manually''"

definition cancel :: "'v system \<Rightarrow> 'v system \<times> bool" where
  "cancel w =
     (if complete (futureObject w) \<or> isCancelled (futureObject w) \<or> isRunning (futureObject w)
      then (w, False)
      else
        let f = (futureObject w)\<lparr>done := True, success := False,
                  ft_error := Some interruptionError,
                  result := \<lparr>value = None, error = Some interruptionError\<rparr>\<rparr>
        in (deferred (callbackMethod (futureObject w)) (w\<lparr>futureObject := f\<rparr>), True))"

definition addDoneCallback :: "callback option \<Rightarrow> 'v system \<Rightarrow> 'v system" where
  "addDoneCallback cb w = w\<lparr>futureObject := (futureObject w)\<lparr>callbackMethod := cb\<rparr>\<rparr>"

subsection \<open>Sequences of calls interleaved with the goroutine\<close>

datatype event =
    Get
  | GetWithTimeout int bool
  | Cancel
  | AddDoneCallback "callback option"
  | Goroutine

fun exec :: "event \<Rightarrow> 'v system \<Rightarrow> 'v system option" where
  "exec Get w = map_option fst (get w)"
| "exec (GetWithTimeout timeout elapses) w = map_option fst (getWithTimeout timeout elapses w)"
| "exec Cancel w = Some (fst (cancel w))"
| "exec (AddDoneCallback cb) w = Some (addDoneCallback cb w)"
| "exec Goroutine w = Some (goroutine_step w)"

fun run :: "event list \<Rightarrow> 'v system \<Rightarrow> 'v system option" where
  "run [] w = Some w"
| "run (e # es) w = (case exec e w of None \<Rightarrow> None | Some w1 \<Rightarrow> run es w1)"


subsection \<open>Invariants of the reachable states\<close>

text \<open>
  \<open>consistent\<close>: once \<open>done\<close> is set, the stored error is the error of the cached
  Result and \<open>success\<close> says that it is nil.
\<close>

definition consistent :: "'v FutureTask \<Rightarrow> bool" where
  "consistent f =
     (done f \<longrightarrow> ft_error f = error (result f) \<and> (success f = (ft_error f = None)))"

text \<open>
  \<open>wellFormed\<close>: a goroutine blocked in its send holds the Result the task returned,
  and the channel has handed a value over only to a future that is done.
\<close>

definition wellFormed :: "'v system \<Rightarrow> bool" where
  "wellFormed w =
     (case producer w of
        NotStarted \<Rightarrow> True
      | Running \<Rightarrow> True
      | Sending r \<Rightarrow> task w = Some r
      | Handed \<Rightarrow> done (futureObject w)
      | Exited \<Rightarrow> done (futureObject w))"

section \<open>Auxiliary facts\<close>

lemma deferred_futureObject: "futureObject (deferred cb w) = futureObject w"
  by (cases cb) (simp_all add: deferred_def)

lemma deferred_rest: "task (deferred cb w) = task w" "producer (deferred cb w) = producer w"
  by (cases cb; simp add: deferred_def)+

lemma receive_keeps:
  assumes "receive w = Some (r, w1)"
  shows "done (futureObject w1) = done (futureObject w)"
    and "callbackMethod (futureObject w1) = callbackMethod (futureObject w)"
    and "invoked w1 = invoked w"
    and "task w1 = task w"
    and "success (futureObject w1) = success (futureObject w)"
    and "ft_error (futureObject w1) = ft_error (futureObject w)"
    and "result (futureObject w1) = result (futureObject w)"
  using assms
  by (auto simp: receive_def goroutine_step_def split: goroutine.splits option.splits)

lemma getWithContext_sets:
  assumes "getWithContext ctx w = Some (w1, r)"
  shows "done (futureObject w1)"
    and "result (futureObject w1) = r"
    and "ft_error (futureObject w1) = error r"
    and "success (futureObject w1) = (error r = None)"
    and "callbackMethod (futureObject w1) = callbackMethod (futureObject w)"
    and "invoked w1 = invoked w"
    and "task w1 = task w"
  using assms
  by (auto simp: getWithContext_def Let_def dest: receive_keeps split: if_splits option.splits prod.splits)

lemma goroutine_step_keeps:
  "done (futureObject (goroutine_step w)) = done (futureObject w)"
  "success (futureObject (goroutine_step w)) = success (futureObject w)"
  "ft_error (futureObject (goroutine_step w)) = ft_error (futureObject w)"
  "result (futureObject (goroutine_step w)) = result (futureObject w)"
  "callbackMethod (futureObject (goroutine_step w)) = callbackMethod (futureObject w)"
  "invoked (goroutine_step w) = invoked w"
  "task (goroutine_step w) = task w"
  by (simp_all add: goroutine_step_def split: goroutine.splits option.splits)

lemma exec_done_sticky:
  assumes "done (futureObject w)"
  shows "\<exists>w'. exec e w = Some w'
           \<and> done (futureObject w')
           \<and> success (futureObject w') = success (futureObject w)
           \<and> ft_error (futureObject w') = ft_error (futureObject w)
           \<and> result (futureObject w') = result (futureObject w)
           \<and> invoked w' = invoked w"
  using assms
  by (cases e)
     (simp_all add: get_def getWithTimeout_def cancel_def complete_def addDoneCallback_def
                    goroutine_step_keeps)

lemma run_done_sticky:
  "done (futureObject w) \<Longrightarrow>
   \<exists>w'. run es w = Some w'
      \<and> done (futureObject w')
      \<and> success (futureObject w') = success (futureObject w)
      \<and> ft_error (futureObject w') = ft_error (futureObject w)
      \<and> result (futureObject w') = result (futureObject w)
      \<and> invoked w' = invoked w"
proof (induction es arbitrary: w)
  case Nil
  then show ?case by simp
next
  case (Cons e es)
  from exec_done_sticky[OF Cons.prems, of e] obtain w1 where
    e: "exec e w = Some w1" and d: "done (futureObject w1)"
    and k: "success (futureObject w1) = success (futureObject w)"
       "ft_error (futureObject w1) = ft_error (futureObject w)"
       "result (futureObject w1) = result (futureObject w)"
       "invoked w1 = invoked w"
    by blast
  from Cons.IH[OF d] e k show ?case by auto
qed




lemma exec_consistent:
  assumes "consistent (futureObject w)" and "exec e w = Some w'"
  shows "consistent (futureObject w')"
proof (cases "done (futureObject w)")
  case True
  from exec_done_sticky[OF True, of e] assms True show ?thesis
    by (auto simp: consistent_def)
next
  case False
  show ?thesis
  proof (cases e)
    case Get
    with assms False obtain w1 r where c: "getWithContext Background w = Some (w1, r)"
      and w': "w' = deferred (callbackMethod (futureObject w)) w1"
      by (auto simp: get_def split: option.splits)
    from getWithContext_sets[OF c] w' show ?thesis
      by (simp add: consistent_def deferred_futureObject)
  next
    case (GetWithTimeout timeout elapses)
    with assms False obtain w1 r where
      c: "getWithContext (WithTimeout timeout elapses) w = Some (w1, r)"
      and w': "w' = deferred (callbackMethod (futureObject w)) w1"
      by (auto simp: getWithTimeout_def split: option.splits)
    from getWithContext_sets[OF c] w' show ?thesis
      by (simp add: consistent_def deferred_futureObject)
  next
    case Cancel
    with assms show ?thesis
      by (auto simp: cancel_def consistent_def deferred_futureObject Let_def split: if_splits)
  next
    case (AddDoneCallback x)
    with assms show ?thesis by (auto simp: addDoneCallback_def consistent_def)
  next
    case Goroutine
    with assms show ?thesis by (auto simp: consistent_def goroutine_step_keeps)
  qed
qed

lemma run_consistent:
  "consistent (futureObject w) \<Longrightarrow> run es w = Some w' \<Longrightarrow> consistent (futureObject w')"
proof (induction es arbitrary: w)
  case Nil
  then show ?case by simp
next
  case (Cons e es)
  then show ?case by (auto split: option.splits dest: exec_consistent)
qed

lemma receive_wellFormed:
  assumes "wellFormed w" and "\<not> done (futureObject w)" and "receive w = Some (r, w1)"
  shows "task w = Some r" and "producer w1 = Handed"
  using assms
  by (auto simp: wellFormed_def receive_def split: goroutine.splits option.splits)

lemma getWithContext_wellFormed:
  assumes "wellFormed w" and "\<not> done (futureObject w)" and "getWithContext ctx w = Some (w1, r)"
  shows "wellFormed w1"
proof (cases "ctxDoneFirst ctx w")
  case True
  with assms show ?thesis
    by (auto simp: getWithContext_def wellFormed_def Let_def split: goroutine.splits)
next
  case False
  with assms(3) obtain w0 where rc: "receive w = Some (r, w0)"
    by (auto simp: getWithContext_def Let_def split: option.splits if_splits)
  from receive_wellFormed(2)[OF assms(1,2) rc] getWithContext_sets(1)[OF assms(3)]
    assms(3) False rc
  show ?thesis
    by (auto simp: getWithContext_def wellFormed_def Let_def split: if_splits)
qed

lemma deferred_wellFormed: "wellFormed (deferred cb w) = wellFormed w"
  by (cases cb) (simp_all add: deferred_def wellFormed_def split: goroutine.splits)

lemma exec_wellFormed:
  assumes "wellFormed w" and "exec e w = Some w'"
  shows "wellFormed w' \<and> task w' = task w"
proof (cases e)
  case Get
  show ?thesis
  proof (cases "done (futureObject w)")
    case True
    with assms Get show ?thesis by (auto simp: get_def)
  next
    case False
    with assms Get obtain w1 r where c: "getWithContext Background w = Some (w1, r)"
      and w': "w' = deferred (callbackMethod (futureObject w)) w1"
      by (auto simp: get_def split: option.splits)
    from getWithContext_wellFormed[OF assms(1) False c] getWithContext_sets(7)[OF c] w'
    show ?thesis by (simp add: deferred_wellFormed deferred_rest)
  qed
next
  case (GetWithTimeout timeout elapses)
  show ?thesis
  proof (cases "done (futureObject w)")
    case True
    with assms GetWithTimeout show ?thesis by (auto simp: getWithTimeout_def)
  next
    case False
    with assms GetWithTimeout obtain w1 r where
      c: "getWithContext (WithTimeout timeout elapses) w = Some (w1, r)"
      and w': "w' = deferred (callbackMethod (futureObject w)) w1"
      by (auto simp: getWithTimeout_def split: option.splits)
    from getWithContext_wellFormed[OF assms(1) False c] getWithContext_sets(7)[OF c] w'
    show ?thesis by (simp add: deferred_wellFormed deferred_rest)
  qed
next
  case Cancel
  with assms show ?thesis
    by (cases "callbackMethod (futureObject w)")
       (auto simp: cancel_def wellFormed_def deferred_def Let_def
             split: if_splits goroutine.splits)
next
  case (AddDoneCallback x)
  with assms show ?thesis
    by (auto simp: addDoneCallback_def wellFormed_def split: goroutine.splits)
next
  case Goroutine
  with assms show ?thesis
    by (auto simp: goroutine_step_def wellFormed_def split: goroutine.splits option.splits)
qed

lemma run_wellFormed:
  "wellFormed w \<Longrightarrow> run es w = Some w' \<Longrightarrow> wellFormed w' \<and> task w' = task w"
proof (induction es arbitrary: w)
  case Nil
  then show ?case by simp
next
  case (Cons e es)
  from Cons.prems(2) obtain w1 where e: "exec e w = Some w1" and r: "run es w1 = Some w'"
    by (auto split: option.splits)
  from exec_wellFormed[OF Cons.prems(1) e] Cons.IH[OF _ r] show ?case by simp
qed

lemma reversed_clash:
  "(''on( htiw '' @ ra = x @ ''( htiw '' @ rb)
   \<longleftrightarrow> ((x = ''on'' \<and> ra = rb) \<or> (\<exists>q. x = ''on( htiw '' @ q \<and> ra = q @ ''( htiw '' @ rb))"
  by (auto simp: Cons_eq_append_conv)

lemma render_clash_exact:
  "(a @ '' with (no'' = b @ '' with ('' @ m)
   \<longleftrightarrow> ((m = ''no'' \<and> a = b) \<or> (\<exists>p. m = p @ '' with (no'' \<and> a = b @ '' with ('' @ p))"
proof
  assume "a @ '' with (no'' = b @ '' with ('' @ m"
  then have "rev (a @ '' with (no'') = rev (b @ '' with ('' @ m)" by (simp only:)
  then have "''on( htiw '' @ rev a = rev m @ ''( htiw '' @ rev b" by simp
  then consider "rev m = ''on''" "rev a = rev b"
    | q where "rev m = ''on( htiw '' @ q" "rev a = q @ ''( htiw '' @ rev b"
    unfolding reversed_clash by blast
  then show "(m = ''no'' \<and> a = b) \<or> (\<exists>p. m = p @ '' with (no'' \<and> a = b @ '' with ('' @ p)"
  proof cases
    case 1
    from 1(1) have "m = rev ''on''" by (metis rev_swap)
    with 1(2) show ?thesis by simp
  next
    case 2
    from 2(1) have "m = rev (''on( htiw '' @ q)" by (metis rev_swap)
    moreover from 2(2) have "a = rev (q @ ''( htiw '' @ rev b)" by (metis rev_swap)
    ultimately have "m = rev q @ '' with (no'' \<and> a = b @ '' with ('' @ rev q" by simp
    then show ?thesis by blast
  qed
next
  assume "(m = ''no'' \<and> a = b) \<or> (\<exists>p. m = p @ '' with (no'' \<and> a = b @ '' with ('' @ p)"
  then show "a @ '' with (no'' = b @ '' with ('' @ m" by auto
qed

lemma receive_delivery:
  assumes "receive w = Some (r, w1)" and "\<not> ctxDoneFirst ctx w"
  shows "getWithContext ctx w
           = Some (w1\<lparr>futureObject := (futureObject w1)
                        \<lparr>result := r, done := True, success := (error r = None),
                         ft_error := error r\<rparr>\<rparr>, r)"
  using assms by (cases "error r") (simp_all add: getWithContext_def Let_def)



section \<open>Properties\<close>

subsection \<open>Retrieval\<close>

text \<open>
  C1. When the deadline elapses before the channel delivers (the deadline is first, or
  the channel never delivers), \<open>getWithTimeout\<close> on a future that is not done returns
  the Result with a nil value and the \<open>TimeoutError\<close> "Request Timeout!", sets
  \<open>done\<close>, clears \<open>success\<close>, records that error and caches that Result. After any
  further sequence of calls and goroutine steps (the computation may complete), no call
  blocks and \<open>get\<close> returns the cached timeout Result, leaving the state as it is.
\<close>

theorem timeout_is_terminal:
  assumes "\<not> done (futureObject w)" and "elapses \<or> receive w = None"
  shows "\<exists>w1. getWithTimeout timeout elapses w
                 = Some (w1, \<lparr>value = None, error = Some (TimeoutError ''Request Timeout!'')\<rparr>)
           \<and> done (futureObject w1)
           \<and> \<not> success (futureObject w1)
           \<and> ft_error (futureObject w1) = Some (TimeoutError ''Request Timeout!'')
           \<and> result (futureObject w1)
               = \<lparr>value = None, error = Some (TimeoutError ''Request Timeout!'')\<rparr>
           \<and> (\<forall>es. \<exists>w2. run es w1 = Some w2
                  \<and> get w2 = Some (w2, \<lparr>value = None, error = Some (TimeoutError ''Request Timeout!'')\<rparr>))"
proof -
  let ?tr = "\<lparr>value = None, error = Some (TimeoutError ''Request Timeout!'')\<rparr> :: 'a Result"
  let ?f = "(futureObject w)\<lparr>done := True, success := False, ft_error := Some timeoutError,
              result := ?tr\<rparr>"
  let ?w1 = "deferred (callbackMethod (futureObject w)) (w\<lparr>futureObject := ?f\<rparr>)"
  from assms have c: "ctxDoneFirst (WithTimeout timeout elapses) w"
    by (auto simp: ctxDoneFirst_def)
  with assms(1) have g: "getWithTimeout timeout elapses w = Some (?w1, ?tr)"
    by (simp add: getWithTimeout_def getWithContext_def Let_def timeoutError_def)
  have f: "futureObject ?w1 = ?f" by (simp add: deferred_futureObject)
  have d: "done (futureObject ?w1)" by (simp add: f)
  have later: "\<exists>w2. run es ?w1 = Some w2 \<and> get w2 = Some (w2, ?tr)" for es
  proof -
    from run_done_sticky[OF d, of es] obtain w2 where
      "run es ?w1 = Some w2" "done (futureObject w2)"
      "result (futureObject w2) = result (futureObject ?w1)"
      by blast
    then show ?thesis by (simp add: get_def f)
  qed
  from g f later show ?thesis by (simp add: timeoutError_def)
qed

theorem timeout_is_terminal_witness:
  "\<not> done (futureObject (ReturnAFuture (Some \<lparr>value = Some (53::int), error = None\<rparr>)))
   \<and> (\<exists>w1. getWithTimeout 1000000000 True (ReturnAFuture (Some \<lparr>value = Some (53::int), error = None\<rparr>))
                 = Some (w1, \<lparr>value = None, error = Some (TimeoutError ''Request Timeout!'')\<rparr>)
           \<and> done (futureObject w1)
           \<and> (\<exists>w2. run [Goroutine, Goroutine, Get] w1 = Some w2
                  \<and> get w2 = Some (w2, \<lparr>value = None, error = Some (TimeoutError ''Request Timeout!'')\<rparr>)))"
proof -
  have h: "\<not> done (futureObject (ReturnAFuture (Some \<lparr>value = Some (53::int), error = None\<rparr>)))"
    by (simp add: ReturnAFuture_def)
  from timeout_is_terminal[OF h, of True 1000000000] h show ?thesis by blast
qed

text \<open>
  C4. On a future whose \<open>done\<close> flag is set, \<open>get\<close> returns the cached Result and the
  state is unchanged: nothing is received, no callback runs. Hence whenever a first
  \<open>get\<close> returns, a second \<open>get\<close> returns the same Result and changes nothing.
\<close>

theorem get_cached:
  "(done (futureObject w) \<longrightarrow> get w = Some (w, result (futureObject w)))
   \<and> (get w = Some (w1, r) \<longrightarrow> get w1 = Some (w1, r))"
proof (intro conjI impI)
  assume "done (futureObject w)"
  then show "get w = Some (w, result (futureObject w))" by (simp add: get_def)
next
  assume g: "get w = Some (w1, r)"
  show "get w1 = Some (w1, r)"
  proof (cases "done (futureObject w)")
    case True
    with g show ?thesis by (auto simp: get_def)
  next
    case False
    with g obtain w2 where c: "getWithContext Background w = Some (w2, r)"
      and w1: "w1 = deferred (callbackMethod (futureObject w)) w2"
      by (auto simp: get_def split: option.splits)
    from getWithContext_sets(1,2)[OF c] w1 show ?thesis
      by (simp add: get_def deferred_futureObject)
  qed
qed

theorem get_cached_witness:
  "get (ReturnAFuture (Some \<lparr>value = Some ''40'', error = None\<rparr>))
     = Some (\<lparr>futureObject =
                \<lparr>success = True, ft_error = None, running = True, done = True,
                 result = \<lparr>value = Some ''40'', error = None\<rparr>, callbackMethod = None\<rparr>,
              task = Some \<lparr>value = Some ''40'', error = None\<rparr>, producer = Handed,
              invoked = []\<rparr>,
             \<lparr>value = Some ''40'', error = None\<rparr>)
   \<and> get \<lparr>futureObject =
            \<lparr>success = True, ft_error = None, running = True, done = True,
             result = \<lparr>value = Some ''40'', error = None\<rparr>, callbackMethod = None\<rparr>,
          task = Some \<lparr>value = Some ''40'', error = None\<rparr>, producer = Handed,
          invoked = []\<rparr>
     = Some (\<lparr>futureObject =
                \<lparr>success = True, ft_error = None, running = True, done = True,
                 result = \<lparr>value = Some ''40'', error = None\<rparr>, callbackMethod = None\<rparr>,
              task = Some \<lparr>value = Some ''40'', error = None\<rparr>, producer = Handed,
              invoked = []\<rparr>,
             \<lparr>value = Some ''40'', error = None\<rparr>)"
proof -
  let ?w1 = "\<lparr>futureObject =
                \<lparr>success = True, ft_error = None, running = True, done = True,
                 result = \<lparr>value = Some ''40'', error = None\<rparr>, callbackMethod = None\<rparr>,
              task = Some \<lparr>value = Some ''40'', error = None\<rparr>, producer = Handed,
              invoked = []\<rparr>"
  have g: "get (ReturnAFuture (Some \<lparr>value = Some ''40'', error = None\<rparr>))
             = Some (?w1, \<lparr>value = Some ''40'', error = None\<rparr>)"
    by (simp add: ReturnAFuture_def get_def getWithContext_def ctxDoneFirst_def receive_def
        deferred_def Let_def)
  from get_cached[of "ReturnAFuture (Some \<lparr>value = Some ''40'', error = None\<rparr>)" ?w1
      "\<lparr>value = Some ''40'', error = None\<rparr>"] g
  show ?thesis by simp
qed

text \<open>
  C5. When the channel delivers \<open>r\<close> before any deadline, the retrieval returns \<open>r\<close>
  unmodified and caches it, and \<open>done\<close> is set; if \<open>r\<close> carries an error then
  \<open>success\<close> is false and the stored error is that error, otherwise \<open>success\<close> is
  true and the stored error is nil. This holds for \<open>getWithContext\<close> whenever its
  \<open>select\<close> takes the channel case, for \<open>get\<close> on a future that is not done, and for
  \<open>getWithTimeout\<close> on a future that is not done when the deadline does not elapse
  first.
\<close>

theorem channel_delivery_bookkeeping:
  assumes "receive w = Some (r, w1)"
  shows "(\<not> ctxDoneFirst ctx w \<longrightarrow>
            (\<exists>w'. getWithContext ctx w = Some (w', r)
               \<and> result (futureObject w') = r
               \<and> done (futureObject w')
               \<and> (if error r \<noteq> None
                   then \<not> success (futureObject w') \<and> ft_error (futureObject w') = error r
                   else success (futureObject w') \<and> ft_error (futureObject w') = None)))
       \<and> (\<not> done (futureObject w) \<longrightarrow>
            (\<exists>w'. get w = Some (w', r)
               \<and> result (futureObject w') = r
               \<and> done (futureObject w')
               \<and> (if error r \<noteq> None
                   then \<not> success (futureObject w') \<and> ft_error (futureObject w') = error r
                   else success (futureObject w') \<and> ft_error (futureObject w') = None)))
       \<and> (\<not> done (futureObject w) \<longrightarrow>
            (\<exists>w'. getWithTimeout timeout False w = Some (w', r)
               \<and> result (futureObject w') = r
               \<and> done (futureObject w')
               \<and> (if error r \<noteq> None
                   then \<not> success (futureObject w') \<and> ft_error (futureObject w') = error r
                   else success (futureObject w') \<and> ft_error (futureObject w') = None)))"
proof (intro conjI impI)
  assume "\<not> ctxDoneFirst ctx w"
  from receive_delivery[OF assms this]
  show "\<exists>w'. getWithContext ctx w = Some (w', r)
               \<and> result (futureObject w') = r
               \<and> done (futureObject w')
               \<and> (if error r \<noteq> None
                   then \<not> success (futureObject w') \<and> ft_error (futureObject w') = error r
                   else success (futureObject w') \<and> ft_error (futureObject w') = None)"
    by auto
next
  assume nd: "\<not> done (futureObject w)"
  have "\<not> ctxDoneFirst Background w" by (simp add: ctxDoneFirst_def)
  from receive_delivery[OF assms this] nd
  show "\<exists>w'. get w = Some (w', r)
               \<and> result (futureObject w') = r
               \<and> done (futureObject w')
               \<and> (if error r \<noteq> None
                   then \<not> success (futureObject w') \<and> ft_error (futureObject w') = error r
                   else success (futureObject w') \<and> ft_error (futureObject w') = None)"
    by (auto simp: get_def deferred_futureObject)
next
  assume nd: "\<not> done (futureObject w)"
  from assms have "\<not> ctxDoneFirst (WithTimeout timeout False) w"
    by (simp add: ctxDoneFirst_def)
  from receive_delivery[OF assms this] nd
  show "\<exists>w'. getWithTimeout timeout False w = Some (w', r)
               \<and> result (futureObject w') = r
               \<and> done (futureObject w')
               \<and> (if error r \<noteq> None
                   then \<not> success (futureObject w') \<and> ft_error (futureObject w') = error r
                   else success (futureObject w') \<and> ft_error (futureObject w') = None)"
    by (auto simp: getWithTimeout_def deferred_futureObject)
qed

theorem channel_delivery_bookkeeping_witness:
  "\<not> ctxDoneFirst (WithTimeout 1000000000 False)
        (ReturnAFuture (Some \<lparr>value = None :: string option, error = Some (TaskError ''boom'')\<rparr>))
   \<and> \<not> done (futureObject
        (ReturnAFuture (Some \<lparr>value = None :: string option, error = Some (TaskError ''boom'')\<rparr>)))
   \<and> (\<exists>w'. getWithContext (WithTimeout 1000000000 False)
               (ReturnAFuture (Some \<lparr>value = None :: string option, error = Some (TaskError ''boom'')\<rparr>))
              = Some (w', \<lparr>value = None, error = Some (TaskError ''boom'')\<rparr>)
           \<and> done (futureObject w')
           \<and> \<not> success (futureObject w')
           \<and> ft_error (futureObject w') = Some (TaskError ''boom''))
   \<and> (\<exists>w'. get
               (ReturnAFuture (Some \<lparr>value = None :: string option, error = Some (TaskError ''boom'')\<rparr>))
              = Some (w', \<lparr>value = None, error = Some (TaskError ''boom'')\<rparr>)
           \<and> done (futureObject w')
           \<and> \<not> success (futureObject w')
           \<and> ft_error (futureObject w') = Some (TaskError ''boom''))
   \<and> (\<exists>w'. getWithTimeout 1000000000 False
               (ReturnAFuture (Some \<lparr>value = None :: string option, error = Some (TaskError ''boom'')\<rparr>))
              = Some (w', \<lparr>value = None, error = Some (TaskError ''boom'')\<rparr>)
           \<and> done (futureObject w')
           \<and> \<not> success (futureObject w')
           \<and> ft_error (futureObject w') = Some (TaskError ''boom''))"
proof -
  let ?r = "\<lparr>value = None :: string option, error = Some (TaskError ''boom'')\<rparr>"
  let ?w = "ReturnAFuture (Some ?r)"
  let ?w1 = "?w\<lparr>futureObject := (futureObject ?w)\<lparr>running := True\<rparr>, producer := Handed\<rparr>"
  have rc: "receive ?w = Some (?r, ?w1)" by (simp add: receive_def ReturnAFuture_def)
  have h: "\<not> ctxDoneFirst (WithTimeout 1000000000 False) ?w"
    by (simp add: ctxDoneFirst_def rc)
  have nd: "\<not> done (futureObject ?w)" by (simp add: ReturnAFuture_def)
  note t = channel_delivery_bookkeeping[OF rc, of "WithTimeout 1000000000 False" 1000000000]
  from t h have a: "\<exists>w'. getWithContext (WithTimeout 1000000000 False) ?w = Some (w', ?r)
           \<and> done (futureObject w') \<and> \<not> success (futureObject w')
           \<and> ft_error (futureObject w') = Some (TaskError ''boom'')"
    by auto
  from t nd have b: "\<exists>w'. get ?w = Some (w', ?r)
           \<and> done (futureObject w') \<and> \<not> success (futureObject w')
           \<and> ft_error (futureObject w') = Some (TaskError ''boom'')"
    by auto
  from t nd have c: "\<exists>w'. getWithTimeout 1000000000 False ?w = Some (w', ?r)
           \<and> done (futureObject w') \<and> \<not> success (futureObject w')
           \<and> ft_error (futureObject w') = Some (TaskError ''boom'')"
    by auto
  from h nd a b c show ?thesis by blast
qed

text \<open>
  C8, as amended. On a future made by \<open>ReturnAFuture\<close> that is not done, \<open>get\<close> never
  takes the deadline case of the \<open>select\<close>: when it returns, it returns the Result the
  task itself returned, so it carries a \<open>TimeoutError\<close> only when the task produced
  one.
\<close>

theorem get_pending_returns_task_result:
  assumes "run es (ReturnAFuture tsk) = Some w"
    and "\<not> done (futureObject w)"
    and "get w = Some (w', r)"
  shows "tsk = Some r \<and> \<not> ctxDoneFirst Background w"
proof -
  have "wellFormed (ReturnAFuture tsk)" by (simp add: wellFormed_def ReturnAFuture_def)
  from run_wellFormed[OF this assms(1)]
  have wf: "wellFormed w" and t: "task w = tsk" by (simp_all add: ReturnAFuture_def)
  have nd: "\<not> ctxDoneFirst Background w" by (simp add: ctxDoneFirst_def)
  from assms(2,3) nd obtain w0 where "receive w = Some (r, w0)"
    by (auto simp: get_def getWithContext_def Let_def split: option.splits if_splits)
  from receive_wellFormed(1)[OF wf assms(2) this] t nd show ?thesis by simp
qed

theorem get_pending_returns_task_result_witness:
  "run [Goroutine, Goroutine] (ReturnAFuture (Some \<lparr>value = Some ''40'', error = None\<rparr>))
     = Some \<lparr>futureObject =
               \<lparr>success = False, ft_error = None, running = True, done = False,
                result = \<lparr>value = None, error = None\<rparr>, callbackMethod = None\<rparr>,
             task = Some \<lparr>value = Some ''40'', error = None\<rparr>,
             producer = Sending \<lparr>value = Some ''40'', error = None\<rparr>, invoked = []\<rparr>
   \<and> map_option snd (get \<lparr>futureObject =
               \<lparr>success = False, ft_error = None, running = True, done = False,
                result = \<lparr>value = None, error = None\<rparr>, callbackMethod = None\<rparr>,
             task = Some \<lparr>value = Some ''40'', error = None\<rparr>,
             producer = Sending \<lparr>value = Some ''40'', error = None\<rparr>, invoked = []\<rparr>)
     = Some \<lparr>value = Some ''40'', error = None\<rparr>"
proof -
  let ?r = "\<lparr>value = Some ''40'', error = None\<rparr>"
  let ?w = "\<lparr>futureObject =
               \<lparr>success = False, ft_error = None, running = True, done = False,
                result = \<lparr>value = None, error = None\<rparr>, callbackMethod = None\<rparr>,
             task = Some ?r, producer = Sending ?r, invoked = []\<rparr>"
  have r: "run [Goroutine, Goroutine] (ReturnAFuture (Some ?r)) = Some ?w"
    by (simp add: ReturnAFuture_def goroutine_step_def zeroResult_def)
  have nd: "\<not> done (futureObject ?w)" by simp
  obtain w' r' where g: "get ?w = Some (w', r')"
    by (simp add: get_def getWithContext_def ctxDoneFirst_def receive_def Let_def)
  from get_pending_returns_task_result[OF r nd g] g r show ?thesis by simp
qed

text \<open>
  C8 as stated fails on a future that has timed out: after \<open>getWithTimeout\<close> ran into
  its deadline, a plain \<open>get\<close> returns the cached Result, which carries the
  \<open>TimeoutError\<close>.
\<close>

theorem get_never_timeout_counterexample:
  "getWithTimeout 1000000000 True (ReturnAFuture (Some \<lparr>value = Some (53::int), error = None\<rparr>))
     = Some (\<lparr>futureObject =
                \<lparr>success = False, ft_error = Some (TimeoutError ''Request Timeout!''),
                 running = False, done = True,
                 result = \<lparr>value = None, error = Some (TimeoutError ''Request Timeout!'')\<rparr>,
                 callbackMethod = None\<rparr>,
              task = Some \<lparr>value = Some 53, error = None\<rparr>, producer = NotStarted,
              invoked = []\<rparr>,
             \<lparr>value = None, error = Some (TimeoutError ''Request Timeout!'')\<rparr>)
   \<and> get \<lparr>futureObject =
            \<lparr>success = False, ft_error = Some (TimeoutError ''Request Timeout!''),
             running = False, done = True,
             result = \<lparr>value = None, error = Some (TimeoutError ''Request Timeout!'')\<rparr>,
             callbackMethod = None\<rparr>,
          task = Some \<lparr>value = Some (53::int), error = None\<rparr>, producer = NotStarted,
          invoked = []\<rparr>
     = Some (\<lparr>futureObject =
                \<lparr>success = False, ft_error = Some (TimeoutError ''Request Timeout!''),
                 running = False, done = True,
                 result = \<lparr>value = None, error = Some (TimeoutError ''Request Timeout!'')\<rparr>,
                 callbackMethod = None\<rparr>,
              task = Some \<lparr>value = Some 53, error = None\<rparr>, producer = NotStarted,
              invoked = []\<rparr>,
             \<lparr>value = None, error = Some (TimeoutError ''Request Timeout!'')\<rparr>)"
  by (simp add: ReturnAFuture_def getWithTimeout_def getWithContext_def ctxDoneFirst_def
      timeoutError_def deferred_def get_def Let_def)

subsection \<open>Cancellation\<close>

text \<open>
  C2. \<open>cancel()\<close> returns true exactly when the future is not done, not cancelled and
  not running. When it returns true, \<open>done\<close> is set, \<open>success\<close> is false, the error is
  the \<open>InterruptError\<close> with text "Cancelled Manually", the cached Result carries
  that error and a nil value, and the goroutine and its channel are as before: nothing
  was received.
\<close>

theorem cancel_succeeds_iff_pending:
  "snd (cancel w) =
     (\<not> done (futureObject w) \<and> \<not> isCancelled (futureObject w) \<and> \<not> running (futureObject w))
   \<and> (snd (cancel w) \<longrightarrow>
        done (futureObject (fst (cancel w)))
      \<and> \<not> success (futureObject (fst (cancel w)))
      \<and> ft_error (futureObject (fst (cancel w))) = Some (InterruptError ''Cancelled Manually'')
      \<and> result (futureObject (fst (cancel w)))
          = \<lparr>value = None, error = Some (InterruptError ''Cancelled Manually'')\<rparr>
      \<and> producer (fst (cancel w)) = producer w
      \<and> task (fst (cancel w)) = task w)"
  by (cases "callbackMethod (futureObject w)")
     (simp_all add: cancel_def complete_def isRunning_def deferred_def interruptionError_def
                    Let_def)

theorem cancel_succeeds_iff_pending_witness:
  "snd (cancel (ReturnAFuture (Some \<lparr>value = Some ''50'', error = None\<rparr>)))
   \<and> ft_error (futureObject (fst (cancel (ReturnAFuture (Some \<lparr>value = Some ''50'', error = None\<rparr>)))))
       = Some (InterruptError ''Cancelled Manually'')
   \<and> producer (fst (cancel (ReturnAFuture (Some \<lparr>value = Some ''50'', error = None\<rparr>))))
       = NotStarted"
  using cancel_succeeds_iff_pending [of "ReturnAFuture (Some \<lparr>value = Some ''50'', error = None\<rparr>)"]
  by (simp add: ReturnAFuture_def isCancelled_def)

text \<open>
  C7. On a future that is done, cancelled or running, \<open>cancel()\<close> returns false and
  changes nothing: no field of the future, not the goroutine, and no callback is
  invoked.
\<close>

theorem cancel_refused_no_change:
  "done (futureObject w) \<or> isCancelled (futureObject w) \<or> running (futureObject w)
   \<Longrightarrow> cancel w = (w, False)"
  by (auto simp: cancel_def complete_def isRunning_def)

theorem cancel_refused_no_change_witness:
  "running (futureObject (goroutine_step (ReturnAFuture (Some (zeroResult :: string Result)))))
   \<and> cancel (goroutine_step (ReturnAFuture (Some (zeroResult :: string Result))))
       = (goroutine_step (ReturnAFuture (Some zeroResult)), False)"
proof -
  have r: "running (futureObject (goroutine_step (ReturnAFuture (Some (zeroResult :: string Result)))))"
    by (simp add: goroutine_step_def ReturnAFuture_def)
  from r cancel_refused_no_change [of "goroutine_step (ReturnAFuture (Some (zeroResult :: string Result)))"]
  show ?thesis by simp
qed

text \<open>
  C6, as amended. \<open>isCancelled\<close> is true exactly when \<open>done\<close> is set and the stored
  error is not nil and its text is "Cancelled Manually". With the future's own
  \<open>TimeoutError\<close> stored it is false; with the error of a successful \<open>cancel\<close> stored
  on a done future it is true.
\<close>

theorem isCancelled_iff_message:
  "isCancelled f = (done f \<and> map_option Error (ft_error f) = Some ''Cancelled Manually'')
   \<and> \<not> isCancelled (f\<lparr>ft_error := Some (TimeoutError ''Request Timeout!'')\<rparr>)
   \<and> isCancelled (f\<lparr>done := True, ft_error := Some (InterruptError ''Cancelled Manually'')\<rparr>)"
  by (cases "ft_error f") (simp_all add: isCancelled_def)

text \<open>
  C6 as stated fails for a task error with the text "Cancelled Manually": after
  \<open>get\<close> received it, \<open>isCancelled\<close> is true although nothing was cancelled.
\<close>

theorem isCancelled_task_error_counterexample:
  "get (ReturnAFuture (Some \<lparr>value = None :: string option,
                              error = Some (TaskError ''Cancelled Manually'')\<rparr>))
     = Some (\<lparr>futureObject =
                \<lparr>success = False, ft_error = Some (TaskError ''Cancelled Manually''),
                 running = True, done = True,
                 result = \<lparr>value = None, error = Some (TaskError ''Cancelled Manually'')\<rparr>,
                 callbackMethod = None\<rparr>,
              task = Some \<lparr>value = None, error = Some (TaskError ''Cancelled Manually'')\<rparr>,
              producer = Handed, invoked = []\<rparr>,
             \<lparr>value = None, error = Some (TaskError ''Cancelled Manually'')\<rparr>)
   \<and> isCancelled
        \<lparr>success = False, ft_error = Some (TaskError ''Cancelled Manually''),
         running = True, done = True,
         result = \<lparr>value = None :: string option, error = Some (TaskError ''Cancelled Manually'')\<rparr>,
         callbackMethod = None\<rparr>"
  by (simp add: ReturnAFuture_def get_def getWithContext_def ctxDoneFirst_def receive_def
      deferred_def isCancelled_def Let_def)

subsection \<open>The completion callback\<close>



subsection \<open>Consistency of the cached fields\<close>

text \<open>
  C10. In every state reached from \<open>ReturnAFuture\<close> by calls of \<open>get\<close>,
  \<open>getWithTimeout\<close>, \<open>cancel\<close> and \<open>addDoneCallback\<close> and by goroutine steps, if
  \<open>done\<close> is set then the stored error equals the error of the cached Result, and
  \<open>success\<close> is true exactly when that error is nil.
\<close>

theorem cached_fields_consistent:
  assumes "run es (ReturnAFuture tsk) = Some w" and "done (futureObject w)"
  shows "ft_error (futureObject w) = error (result (futureObject w))
       \<and> (success (futureObject w) = (ft_error (futureObject w) = None))"
proof -
  have "consistent (futureObject (ReturnAFuture tsk))"
    by (simp add: consistent_def ReturnAFuture_def)
  from run_consistent[OF this assms(1)] assms(2) show ?thesis
    by (simp add: consistent_def)
qed

theorem cached_fields_consistent_witness:
  "run [Cancel, Goroutine, Get] (ReturnAFuture (Some \<lparr>value = Some ''50'', error = None\<rparr>))
     = Some \<lparr>futureObject =
               \<lparr>success = False, ft_error = Some (InterruptError ''Cancelled Manually''),
                running = True, done = True,
                result = \<lparr>value = None, error = Some (InterruptError ''Cancelled Manually'')\<rparr>,
                callbackMethod = None\<rparr>,
             task = Some \<lparr>value = Some ''50'', error = None\<rparr>, producer = Running,
             invoked = []\<rparr>
   \<and> ft_error (futureObject (the (run [Cancel, Goroutine, Get]
         (ReturnAFuture (Some \<lparr>value = Some ''50'', error = None\<rparr>)))))
       = error (result (futureObject (the (run [Cancel, Goroutine, Get]
         (ReturnAFuture (Some \<lparr>value = Some ''50'', error = None\<rparr>))))))
   \<and> \<not> success (futureObject (the (run [Cancel, Goroutine, Get]
         (ReturnAFuture (Some \<lparr>value = Some ''50'', error = None\<rparr>)))))"
proof -
  let ?w = "\<lparr>futureObject =
               \<lparr>success = False, ft_error = Some (InterruptError ''Cancelled Manually''),
                running = True, done = True,
                result = \<lparr>value = None, error = Some (InterruptError ''Cancelled Manually'')\<rparr>,
                callbackMethod = None\<rparr>,
             task = Some \<lparr>value = Some ''50'', error = None\<rparr>, producer = Running,
             invoked = []\<rparr>"
  have r: "run [Cancel, Goroutine, Get] (ReturnAFuture (Some \<lparr>value = Some ''50'', error = None\<rparr>))
             = Some ?w"
    by (simp add: ReturnAFuture_def cancel_def complete_def isCancelled_def isRunning_def
        deferred_def interruptionError_def goroutine_step_def get_def Let_def)
  have d: "done (futureObject ?w)" by simp
  from cached_fields_consistent[OF r d] r show ?thesis by simp
qed

subsection \<open>Rendering a Result\<close>

text \<open>
  C9, as amended. The rendering of a Result is its value (\<open><nil>\<close> for a nil value)
  followed by " with (no error)" when the error is nil, and by " with (m error)"
  when the error has the text m. A Result without error and a Result with an error
  render alike exactly when the error text is "no" and the two values render alike, or
  the error text ends in " with (no" and the value of the first renders as the value
  of the second followed by " with (" and the rest of the error text. So a success
  renders differently from every failure whose text is neither "no" nor ends in
  " with (no". Two failures with the same value render alike exactly when their
  error texts are equal.
\<close>

theorem String_rendering:
  "String fmtv r
     = (case value r of None \<Rightarrow> ''<nil>'' | Some v \<Rightarrow> fmtv v)
       @ (case error r of None \<Rightarrow> '' with (no error)''
          | Some e \<Rightarrow> '' with ('' @ Error e @ '' error)'')
   \<and> (error r1 = None \<and> error r2 = Some e \<longrightarrow>
        ((String fmtv r1 = String fmtv r2) \<longleftrightarrow>
           ((Error e = ''no''
               \<and> (case value r1 of None \<Rightarrow> ''<nil>'' | Some v \<Rightarrow> fmtv v)
                   = (case value r2 of None \<Rightarrow> ''<nil>'' | Some v \<Rightarrow> fmtv v))
            \<or> (\<exists>p. Error e = p @ '' with (no''
                   \<and> (case value r1 of None \<Rightarrow> ''<nil>'' | Some v \<Rightarrow> fmtv v)
                       = (case value r2 of None \<Rightarrow> ''<nil>'' | Some v \<Rightarrow> fmtv v)
                         @ '' with ('' @ p))))
   \<and> (error r1 = None \<and> error r2 = Some e
        \<and> Error e \<noteq> ''no'' \<and> \<not> suffix '' with (no'' (Error e)
        \<longrightarrow> String fmtv r1 \<noteq> String fmtv r2)
   \<and> (String fmtv \<lparr>value = v, error = Some e1\<rparr> = String fmtv \<lparr>value = v, error = Some e2\<rparr>
        \<longleftrightarrow> Error e1 = Error e2)"
proof -
  let ?A = "\<lambda>r. (case value r of None \<Rightarrow> ''<nil>'' | Some v \<Rightarrow> fmtv v)"
  have shape: "String fmtv r
     = ?A r @ (case error r of None \<Rightarrow> '' with (no error)''
               | Some e \<Rightarrow> '' with ('' @ Error e @ '' error)'')" for r
    by (simp add: String_def split: option.splits)
  have exact: "(String fmtv r1 = String fmtv r2) \<longleftrightarrow>
           ((Error e = ''no'' \<and> ?A r1 = ?A r2)
            \<or> (\<exists>p. Error e = p @ '' with (no'' \<and> ?A r1 = ?A r2 @ '' with ('' @ p))"
    if h: "error r1 = None \<and> error r2 = Some e"
  proof -
    have "(String fmtv r1 = String fmtv r2)
          \<longleftrightarrow> ((?A r1 @ '' with (no'') @ '' error)'' = (?A r2 @ '' with ('' @ Error e) @ '' error)'')"
      using h by (simp add: shape)
    also have "\<dots> \<longleftrightarrow> (?A r1 @ '' with (no'' = ?A r2 @ '' with ('' @ Error e)"
      by (simp only: append_same_eq)
    finally show ?thesis by (simp only: render_clash_exact)
  qed
  have distinct: "String fmtv r1 \<noteq> String fmtv r2"
    if h: "error r1 = None \<and> error r2 = Some e
           \<and> Error e \<noteq> ''no'' \<and> \<not> suffix '' with (no'' (Error e)"
  proof
    assume "String fmtv r1 = String fmtv r2"
    with exact h have "\<exists>p. Error e = p @ '' with (no''" by blast
    with h show False by (auto simp: suffix_def)
  qed
  have kinds: "String fmtv \<lparr>value = v, error = Some e1\<rparr> = String fmtv \<lparr>value = v, error = Some e2\<rparr>
        \<longleftrightarrow> Error e1 = Error e2"
    by (simp add: String_def)
  from shape exact distinct kinds show ?thesis by blast
qed

theorem String_rendering_witness:
  "error \<lparr>value = Some ''40'', error = None\<rparr> = None
   \<and> Error (TaskError ''piano'') \<noteq> ''no''
   \<and> \<not> suffix '' with (no'' (Error (TaskError ''piano''))
   \<and> String id \<lparr>value = Some ''40'', error = None\<rparr> = ''40 with (no error)''
   \<and> String id \<lparr>value = Some ''40'', error = None\<rparr>
       \<noteq> String id \<lparr>value = None, error = Some (TaskError ''piano'')\<rparr>"
proof -
  let ?r1 = "\<lparr>value = Some ''40'', error = None\<rparr>"
  let ?r2 = "\<lparr>value = None :: string option, error = Some (TaskError ''piano'')\<rparr>"
  note t = String_rendering[of id ?r1 ?r1 ?r2 "TaskError ''piano''"]
  have p1: "error ?r1 = None" by simp
  have p2: "error ?r2 = Some (TaskError ''piano'')" by simp
  have p3: "Error (TaskError ''piano'') \<noteq> ''no''" by simp
  have p4: "\<not> suffix '' with (no'' (Error (TaskError ''piano''))"
    by (auto dest: suffix_length_le)
  from t have a: "String id ?r1 = ''40 with (no error)''" by simp
  from t p1 p2 p3 p4 have b: "String id ?r1 \<noteq> String id ?r2" by blast
  from p1 p3 p4 a b show ?thesis by blast
qed

text \<open>
  C9 as stated fails for a task error with the text "no": with a nil value it renders
  exactly as the Result without error does.
\<close>

theorem String_indistinguishable_counterexample:
  "String id \<lparr>value = None, error = Some (TaskError ''no'')\<rparr> = ''<nil> with (no error)''
   \<and> String id \<lparr>value = None, error = None\<rparr> = ''<nil> with (no error)''"
  by (simp add: String_def)

end
